theory Spec2Isabelle
  imports Complex_Main "HOL-Library.Multiset"
begin

section \<open>The retirement simulation of \<^verbatim>\<open>sim.py\<close>\<close>

text \<open>
  The Monte Carlo engine \<^verbatim>\<open>run_sim\<close> of \<^verbatim>\<open>src/retirement_simulation/sim.py\<close>,
  embedded function by function. Conventions of the embedding:
  \<^item> a Python \<^verbatim>\<open>float\<close> is a \<open>real\<close> (rounding, infinities and nan are not modelled),
    a Python \<^verbatim>\<open>int\<close> is an \<open>int\<close>;
  \<^item> a numpy array of shape \<^verbatim>\<open>(n_sims,)\<close> is a list, an array-wide operation is a
    \<open>map\<close> over it, a boolean mask is a \<open>bool list\<close>;
  \<^item> the plan dictionary is a record whose fields are optional: a key that is absent
    is \<open>None\<close>, and reading it raises \<^verbatim>\<open>KeyError\<close> with the key;
  \<^item> an exception is the \<open>Inl\<close> of a sum;
  \<^item> the global random stream of \<^verbatim>\<open>np.random.normal\<close> is an explicit argument
    \<open>draws\<close>: \<open>draws i j\<close> is the return that the \<open>i\<close>-th call (counted from 0, the
    \<^verbatim>\<open>i\<close> of \<^verbatim>\<open>enumerate\<close>) puts at position \<open>j\<close> of its result.
\<close>

subsection \<open>Data\<close>

datatype error =
    KeyError string
  | ValueError
  | NanResult

text \<open>
  \<open>KeyError k\<close>: the plan lacks key \<open>k\<close>. \<open>ValueError\<close>: \<^verbatim>\<open>np.full\<close> refuses a
  negative length. \<open>NanResult\<close>: with \<^verbatim>\<open>n_sims = 0\<close> numpy divides zero by zero and
  takes the median of an empty array; both outputs are nan (a warning, no exception).
  The reals have no nan, so the embedding reports that outcome apart.
\<close>

record portfolio_dict =
  CURRENT :: "real option"
  MONTHLY_DEPOSIT :: "real option"
  ANNUAL_DIVIDENDS :: "real option"

record retirement_dict =
  RETIREMENT_AGE :: "int option"
  DEATH_AGE :: "int option"
  EMERGENCY_SAVINGS :: "int option"
  ANNUAL_SPEND :: "real option"
  SOCIAL_SECURITY :: "real option"

record plan_dict =
  CURRENT_AGE :: "int option"
  PORTFOLIO :: "portfolio_dict option"
  RETIREMENT :: "retirement_dict option"

record Scenario =
  name :: string
  avg_return :: real
  vol :: real
  raise_rate :: real
  inflation :: real

type_synonym population = "real list \<times> int list"

subsection \<open>Exceptions and dictionary reads\<close>

definition ebind :: "error + 'a \<Rightarrow> ('a \<Rightarrow> error + 'b) \<Rightarrow> error + 'b" where
  "ebind m f = (case m of Inl e \<Rightarrow> Inl e | Inr x \<Rightarrow> f x)"

definition getitem :: "string \<Rightarrow> 'a option \<Rightarrow> error + 'a" where
  "getitem k v = (case v of None \<Rightarrow> Inl (KeyError k) | Some x \<Rightarrow> Inr x)"

definition np_full :: "int \<Rightarrow> 'a \<Rightarrow> error + 'a list" where
  "np_full n x = (if n < 0 then Inl ValueError else Inr (replicate (nat n) x))"

subsection \<open>The body of the year loop\<close>

text \<open>Line 41: one call of \<^verbatim>\<open>np.random.normal(avg_return, vol, n_sims)\<close>.\<close>

definition market_returns_of :: "(nat \<Rightarrow> nat \<Rightarrow> real) \<Rightarrow> nat \<Rightarrow> int \<Rightarrow> real list" where
  "market_returns_of draws i n_sims = map (draws i) [0..<nat n_sims]"

text \<open>Line 42: \<^verbatim>\<open>portfolios *= (1 + market_returns)\<close>.\<close>

definition market_step :: "real list \<Rightarrow> real list \<Rightarrow> real list" where
  "market_step portfolios market_returns =
     map2 (\<lambda>p r. p * (1 + r)) portfolios market_returns"

text \<open>Lines 46 and 47, the accumulation branch.\<close>

definition contribution_of :: "plan_dict \<Rightarrow> Scenario \<Rightarrow> int \<Rightarrow> error + real" where
  "contribution_of plan scen year_idx =
     ebind (getitem ''PORTFOLIO'' (PORTFOLIO plan)) (\<lambda>pf.
     ebind (getitem ''MONTHLY DEPOSIT'' (MONTHLY_DEPOSIT pf)) (\<lambda>monthly_deposit.
       Inr ((monthly_deposit * 12) * ((1 + raise_rate scen) ^ nat year_idx))))"

definition accumulation :: "plan_dict \<Rightarrow> Scenario \<Rightarrow> int \<Rightarrow> population \<Rightarrow> error + population" where
  "accumulation plan scen year_idx st =
     (case st of (portfolios, skips) \<Rightarrow>
        ebind (contribution_of plan scen year_idx) (\<lambda>contribution.
          Inr (map (\<lambda>p. p + contribution) portfolios, skips)))"

text \<open>Lines 50 to 53: the inflated amounts and the net withdrawal.\<close>

definition net_withdrawal_of :: "plan_dict \<Rightarrow> Scenario \<Rightarrow> int \<Rightarrow> error + real" where
  "net_withdrawal_of plan scen year_idx =
     ebind (getitem ''RETIREMENT'' (RETIREMENT plan)) (\<lambda>rt.
     ebind (getitem ''ANNUAL SPEND'' (ANNUAL_SPEND rt)) (\<lambda>annual_spend.
     let inf_spend = annual_spend * ((1 + inflation scen) ^ nat year_idx) in
     ebind (getitem ''SOCIAL SECURITY'' (SOCIAL_SECURITY rt)) (\<lambda>social_security.
     let inf_ss = social_security * ((1 + inflation scen) ^ nat year_idx) in
     ebind (getitem ''PORTFOLIO'' (PORTFOLIO plan)) (\<lambda>pf.
     ebind (getitem ''ANNUAL DIVIDENDS'' (ANNUAL_DIVIDENDS pf)) (\<lambda>annual_dividends.
     let inf_div = annual_dividends * ((1 + inflation scen) ^ nat year_idx) in
       Inr (inf_spend - inf_ss - inf_div))))))"

text \<open>Lines 56 to 62: the skip policy, on the whole population at once.\<close>

definition should_withdraw_of :: "real list \<Rightarrow> int list \<Rightarrow> bool list" where
  "should_withdraw_of market_returns skips =
     map2 (\<lambda>r s. r > 0 \<or> s \<le> 0) market_returns skips"

definition withdraw :: "real \<Rightarrow> bool list \<Rightarrow> real list \<Rightarrow> real list" where
  "withdraw net_withdrawal should_withdraw portfolios =
     map2 (\<lambda>p w. if w then p - net_withdrawal else p) portfolios should_withdraw"

definition used_skip_of :: "bool list \<Rightarrow> real list \<Rightarrow> bool list" where
  "used_skip_of should_withdraw portfolios =
     map2 (\<lambda>w p. \<not> w \<and> p > 0) should_withdraw portfolios"

definition decrement :: "bool list \<Rightarrow> int list \<Rightarrow> int list" where
  "decrement used_skip skips = map2 (\<lambda>s u. if u then s - 1 else s) skips used_skip"

definition retirement :: "plan_dict \<Rightarrow> Scenario \<Rightarrow> int \<Rightarrow> real list \<Rightarrow> population \<Rightarrow> error + population" where
  "retirement plan scen year_idx market_returns st =
     (case st of (portfolios, skips) \<Rightarrow>
        ebind (net_withdrawal_of plan scen year_idx) (\<lambda>net_withdrawal.
          let should_withdraw = should_withdraw_of market_returns skips;
              portfolios = withdraw net_withdrawal should_withdraw portfolios;
              used_skip = used_skip_of should_withdraw portfolios;
              skips = decrement used_skip skips
          in Inr (portfolios, skips)))"

text \<open>Lines 44 to 62: the phase branch on the plan-wide age.\<close>

definition cash_flow :: "plan_dict \<Rightarrow> Scenario \<Rightarrow> int \<Rightarrow> int \<Rightarrow> int \<Rightarrow> real list \<Rightarrow> population \<Rightarrow> error + population" where
  "cash_flow plan scen ret_age age year_idx market_returns st =
     (if age \<le> ret_age then accumulation plan scen year_idx st
      else retirement plan scen year_idx market_returns st)"

text \<open>Line 65: \<^verbatim>\<open>portfolios = np.maximum(portfolios, 0)\<close>.\<close>

definition floor_at_0 :: "population \<Rightarrow> population" where
  "floor_at_0 st = (case st of (portfolios, skips) \<Rightarrow> (map (\<lambda>p. max p 0) portfolios, skips))"

text \<open>Lines 38 to 65: one pass of the loop body, for the pair \<open>(i, year_idx)\<close>.\<close>

definition year_body :: "plan_dict \<Rightarrow> Scenario \<Rightarrow> (nat \<Rightarrow> nat \<Rightarrow> real) \<Rightarrow> int \<Rightarrow> int \<Rightarrow> int \<Rightarrow> nat \<times> int \<Rightarrow> population \<Rightarrow> error + population" where
  "year_body plan scen draws n_sims curr_age ret_age iy st =
     (case iy of (i, year_idx) \<Rightarrow>
      case st of (portfolios, skips) \<Rightarrow>
        let age = curr_age + year_idx;
            market_returns = market_returns_of draws i n_sims;
            portfolios = market_step portfolios market_returns
        in ebind (cash_flow plan scen ret_age age year_idx market_returns (portfolios, skips))
             (\<lambda>st'. Inr (floor_at_0 st')))"

subsection \<open>The loop and the run\<close>

fun year_loop :: "plan_dict \<Rightarrow> Scenario \<Rightarrow> (nat \<Rightarrow> nat \<Rightarrow> real) \<Rightarrow> int \<Rightarrow> int \<Rightarrow> int \<Rightarrow> (nat \<times> int) list \<Rightarrow> population \<Rightarrow> error + population" where
  "year_loop plan scen draws n_sims curr_age ret_age [] st = Inr st"
| "year_loop plan scen draws n_sims curr_age ret_age (iy # rest) st =
     ebind (year_body plan scen draws n_sims curr_age ret_age iy st)
       (year_loop plan scen draws n_sims curr_age ret_age rest)"

text \<open>
  Line 37: \<^verbatim>\<open>enumerate(np.arange(1, years+1))\<close>, the pairs \<open>(0, 1), (1, 2), \<dots>\<close> up to
  \<open>years\<close>; empty when \<open>years \<le> 0\<close>.
\<close>

definition year_range :: "int \<Rightarrow> (nat \<times> int) list" where
  "year_range years = enumerate 0 [1..years]"

text \<open>
  \<^verbatim>\<open>np.median\<close> of a one-dimensional array, as numpy computes it: the array is
  partitioned so that the middle positions hold what a sort would put there, and
  the mean of the one middle element (odd size) or the two (even size) is returned.
\<close>

definition mean :: "real list \<Rightarrow> real" where
  "mean xs = sum_list xs / real (length xs)"

definition np_median :: "real list \<Rightarrow> real" where
  "np_median a =
     (let sz = length a; szh = sz div 2; part = sort a
      in if sz mod 2 = 0 then mean (take 2 (drop (szh - 1) part))
         else mean (take 1 (drop szh part)))"

text \<open>Line 67: \<^verbatim>\<open>np.sum(portfolios > 0) / n_sims * 100\<close>.\<close>

definition success_rate_of :: "real list \<Rightarrow> int \<Rightarrow> real" where
  "success_rate_of portfolios n_sims =
     real (length (filter (\<lambda>p. p > 0) portfolios)) / real_of_int n_sims * 100"

text \<open>
  Lines 28 to 35: the reads and the two arrays, before the loop. On the types of the
  fields \<^verbatim>\<open>float(\<dots>)\<close> and \<^verbatim>\<open>int(\<dots>)\<close> change nothing.
\<close>

definition init_run :: "int \<Rightarrow> plan_dict \<Rightarrow> error + (int \<times> int \<times> int \<times> population)" where
  "init_run n_sims plan =
     ebind (getitem ''CURRENT AGE'' (CURRENT_AGE plan)) (\<lambda>curr_age.
     ebind (getitem ''RETIREMENT'' (RETIREMENT plan)) (\<lambda>rt.
     ebind (getitem ''RETIREMENT AGE'' (RETIREMENT_AGE rt)) (\<lambda>ret_age.
     ebind (getitem ''DEATH AGE'' (DEATH_AGE rt)) (\<lambda>death_age.
     let years = death_age - curr_age in
     ebind (getitem ''PORTFOLIO'' (PORTFOLIO plan)) (\<lambda>pf.
     ebind (getitem ''CURRENT'' (CURRENT pf)) (\<lambda>current.
     ebind (np_full n_sims current) (\<lambda>portfolios.
     ebind (getitem ''EMERGENCY SAVINGS'' (EMERGENCY_SAVINGS rt)) (\<lambda>emergency_savings.
     ebind (np_full n_sims emergency_savings) (\<lambda>skips.
       Inr (curr_age, ret_age, years, (portfolios, skips)))))))))))"

text \<open>Lines 28 to 65: the population when the loop has ended.\<close>

definition final_population :: "int \<Rightarrow> plan_dict \<Rightarrow> Scenario \<Rightarrow> (nat \<Rightarrow> nat \<Rightarrow> real) \<Rightarrow> error + population" where
  "final_population n_sims plan scen draws =
     ebind (init_run n_sims plan) (\<lambda>(curr_age, ret_age, years, st).
       year_loop plan scen draws n_sims curr_age ret_age (year_range years) st)"

text \<open>Lines 67 to 70: the reduction to the two outputs.\<close>

definition reduce :: "int \<Rightarrow> real list \<Rightarrow> error + (real \<times> real)" where
  "reduce n_sims portfolios =
     (if n_sims = 0 then Inl NanResult
      else let success_rate = success_rate_of portfolios n_sims;
               median_final = np_median portfolios
           in Inr (success_rate, median_final))"

definition run_sim :: "int \<Rightarrow> plan_dict \<Rightarrow> Scenario \<Rightarrow> (nat \<Rightarrow> nat \<Rightarrow> real) \<Rightarrow> error + (real \<times> real)" where
  "run_sim n_sims plan scen draws =
     ebind (final_population n_sims plan scen draws) (\<lambda>(portfolios, skips).
       reduce n_sims portfolios)"

subsection \<open>The scenarios of \<^verbatim>\<open>main\<close>\<close>

text \<open>Lines 78 to 82; \<^verbatim>\<open>main\<close> runs each of them with 100000 trials.\<close>

definition Expected :: Scenario where
  "Expected = \<lparr>name = ''Expected'', avg_return = 0.10, vol = 0.15,
     raise_rate = 0.03, inflation = 0.02\<rparr>"

definition Conservative :: Scenario where
  "Conservative = \<lparr>name = ''Conservative'', avg_return = 0.08, vol = 0.18,
     raise_rate = 0.02, inflation = 0.03\<rparr>"

definition Catastrophic :: Scenario where
  "Catastrophic = \<lparr>name = ''Catastrophic'', avg_return = 0.06, vol = 0.20,
     raise_rate = 0.02, inflation = 0.03\<rparr>"

definition scenarios :: "Scenario list" where
  "scenarios = [Expected, Conservative, Catastrophic]"

subsection \<open>Notions of the specification\<close>

text \<open>
  The standard median in the words of the specification: the middle value of the
  sorted population, the average of the two middle values when the size is even.
\<close>

definition standard_median :: "real list \<Rightarrow> real" where
  "standard_median xs =
     (if even (length xs)
      then (sort xs ! (length xs div 2 - 1) + sort xs ! (length xs div 2)) / 2
      else sort xs ! (length xs div 2))"

text \<open>
  The first key, in the order in which lines 28 to 35 read them, that the plan lacks;
  \<open>None\<close> when all seven are there.
\<close>

definition first_missing_key :: "plan_dict \<Rightarrow> string option" where
  "first_missing_key plan =
     (case CURRENT_AGE plan of None \<Rightarrow> Some ''CURRENT AGE'' | Some _ \<Rightarrow>
      case RETIREMENT plan of None \<Rightarrow> Some ''RETIREMENT'' | Some rt \<Rightarrow>
      case RETIREMENT_AGE rt of None \<Rightarrow> Some ''RETIREMENT AGE'' | Some _ \<Rightarrow>
      case DEATH_AGE rt of None \<Rightarrow> Some ''DEATH AGE'' | Some _ \<Rightarrow>
      case PORTFOLIO plan of None \<Rightarrow> Some ''PORTFOLIO'' | Some pf \<Rightarrow>
      case CURRENT pf of None \<Rightarrow> Some ''CURRENT'' | Some _ \<Rightarrow>
      case EMERGENCY_SAVINGS rt of None \<Rightarrow> Some ''EMERGENCY SAVINGS'' | Some _ \<Rightarrow> None)"

subsection \<open>Inputs for the examples\<close>

text \<open>A random source that returns the same value at every call and position.\<close>

definition const_draws :: "real \<Rightarrow> nat \<Rightarrow> nat \<Rightarrow> real" where
  "const_draws c i j = c"

text \<open>A scenario with no volatility, no raises and no inflation.\<close>

definition Flat :: Scenario where
  "Flat = \<lparr>name = ''Flat'', avg_return = 0, vol = 0, raise_rate = 0, inflation = 0\<rparr>"

text \<open>
  A saver aged 64 who retires at 65 and plans until 67: year 1 is an accumulation
  year, years 2 and 3 are retirement years.
\<close>

definition example_plan :: plan_dict where
  "example_plan =
     \<lparr>CURRENT_AGE = Some 64,
      PORTFOLIO = Some \<lparr>CURRENT = Some 100000, MONTHLY_DEPOSIT = Some 1000,
                         ANNUAL_DIVIDENDS = Some 1000\<rparr>,
      RETIREMENT = Some \<lparr>RETIREMENT_AGE = Some 65, DEATH_AGE = Some 67,
                          EMERGENCY_SAVINGS = Some 2, ANNUAL_SPEND = Some 40000,
                          SOCIAL_SECURITY = Some 15000\<rparr>\<rparr>"

text \<open>
  A plan whose death age lies before the current age, and which lacks the four keys
  that only the loop body reads.
\<close>

definition backward_plan :: plan_dict where
  "backward_plan =
     \<lparr>CURRENT_AGE = Some 70,
      PORTFOLIO = Some \<lparr>CURRENT = Some 1000, MONTHLY_DEPOSIT = None,
                         ANNUAL_DIVIDENDS = None\<rparr>,
      RETIREMENT = Some \<lparr>RETIREMENT_AGE = Some 65, DEATH_AGE = Some 60,
                          EMERGENCY_SAVINGS = Some 0, ANNUAL_SPEND = None,
                          SOCIAL_SECURITY = None\<rparr>\<rparr>"

text \<open>A plan without the key \<^verbatim>\<open>DEATH AGE\<close>.\<close>

definition ageless_plan :: plan_dict where
  "ageless_plan =
     \<lparr>CURRENT_AGE = Some 64,
      PORTFOLIO = Some \<lparr>CURRENT = Some 100000, MONTHLY_DEPOSIT = Some 1000,
                         ANNUAL_DIVIDENDS = Some 1000\<rparr>,
      RETIREMENT = Some \<lparr>RETIREMENT_AGE = Some 65, DEATH_AGE = None,
                          EMERGENCY_SAVINGS = Some 2, ANNUAL_SPEND = Some 40000,
                          SOCIAL_SECURITY = Some 15000\<rparr>\<rparr>"

text \<open>A random source that returns \<open>c\<close> in its first \<open>m\<close> calls and 0 in the later ones.\<close>

definition draws_upto :: "nat \<Rightarrow> real \<Rightarrow> nat \<Rightarrow> nat \<Rightarrow> real" where
  "draws_upto m c i j = (if i < m then c else 0)"

section \<open>Basic facts about the embedding\<close>

lemma ebind_Inl [simp]: "ebind (Inl e) f = Inl e"
  by (simp add: ebind_def)

lemma ebind_Inr [simp]: "ebind (Inr x) f = f x"
  by (simp add: ebind_def)

lemma ebind_eq_Inr: "ebind m f = Inr y \<longleftrightarrow> (\<exists>x. m = Inr x \<and> f x = Inr y)"
  by (cases m) simp_all

lemma ebind_eq_Inl: "ebind m f = Inl e \<longleftrightarrow> m = Inl e \<or> (\<exists>x. m = Inr x \<and> f x = Inl e)"
  by (cases m) simp_all

lemma getitem_eq_Inr: "getitem k v = Inr x \<longleftrightarrow> v = Some x"
  by (cases v) (simp_all add: getitem_def)

lemma getitem_Some [simp]: "getitem k (Some x) = Inr x"
  by (simp add: getitem_def)

lemma getitem_None [simp]: "getitem k None = Inl (KeyError k)"
  by (simp add: getitem_def)

lemma length_market_returns_of [simp]: "length (market_returns_of draws i n_sims) = nat n_sims"
  by (simp add: market_returns_of_def)

lemma nth_market_returns_of [simp]: "j < nat n_sims \<Longrightarrow> market_returns_of draws i n_sims ! j = draws i j"
  by (simp add: market_returns_of_def)

lemma length_market_step [simp]:
  "length (market_step portfolios market_returns) = min (length portfolios) (length market_returns)"
  by (simp add: market_step_def)

lemma nth_market_step:
  "j < length portfolios \<Longrightarrow> j < length market_returns \<Longrightarrow>
   market_step portfolios market_returns ! j = portfolios ! j * (1 + market_returns ! j)"
  by (simp add: market_step_def)

lemma contribution_of_eq_Inr:
  "contribution_of plan scen year_idx = Inr c \<longleftrightarrow>
   (\<exists>pf md. PORTFOLIO plan = Some pf \<and> MONTHLY_DEPOSIT pf = Some md \<and>
      c = md * 12 * (1 + raise_rate scen) ^ nat year_idx)"
  by (auto simp: contribution_of_def ebind_eq_Inr getitem_eq_Inr)

lemma net_withdrawal_of_eq_Inr:
  "net_withdrawal_of plan scen year_idx = Inr w \<longleftrightarrow>
   (\<exists>rt pf spend ss dv. RETIREMENT plan = Some rt \<and> PORTFOLIO plan = Some pf \<and>
      ANNUAL_SPEND rt = Some spend \<and> SOCIAL_SECURITY rt = Some ss \<and>
      ANNUAL_DIVIDENDS pf = Some dv \<and>
      w = spend * (1 + inflation scen) ^ nat year_idx
          - ss * (1 + inflation scen) ^ nat year_idx
          - dv * (1 + inflation scen) ^ nat year_idx)"
  by (auto simp: net_withdrawal_of_def ebind_eq_Inr getitem_eq_Inr Let_def)

lemma accumulation_eq_Inr:
  "accumulation plan scen year_idx (portfolios, skips) = Inr (portfolios', skips') \<longleftrightarrow>
   (\<exists>c. contribution_of plan scen year_idx = Inr c \<and>
      portfolios' = map (\<lambda>p. p + c) portfolios \<and> skips' = skips)"
  by (auto simp: accumulation_def ebind_eq_Inr)

lemma retirement_eq_Inr:
  "retirement plan scen year_idx market_returns (portfolios, skips) = Inr (portfolios', skips') \<longleftrightarrow>
   (\<exists>w. net_withdrawal_of plan scen year_idx = Inr w \<and>
      portfolios' = withdraw w (should_withdraw_of market_returns skips) portfolios \<and>
      skips' = decrement (used_skip_of (should_withdraw_of market_returns skips) portfolios') skips)"
  by (auto simp: retirement_def ebind_eq_Inr Let_def)

lemma year_body_eq_Inr:
  "year_body plan scen draws n_sims curr_age ret_age (i, year_idx) (portfolios, skips) = Inr st \<longleftrightarrow>
   (\<exists>cf. cash_flow plan scen ret_age (curr_age + year_idx) year_idx
            (market_returns_of draws i n_sims)
            (market_step portfolios (market_returns_of draws i n_sims), skips) = Inr cf \<and>
         st = floor_at_0 cf)"
  by (auto simp: year_body_def ebind_eq_Inr Let_def)

lemma nth_should_withdraw_of:
  "j < length market_returns \<Longrightarrow> j < length skips \<Longrightarrow>
   should_withdraw_of market_returns skips ! j = (market_returns ! j > 0 \<or> skips ! j \<le> 0)"
  by (simp add: should_withdraw_of_def)

lemma length_should_withdraw_of [simp]:
  "length (should_withdraw_of market_returns skips) = min (length market_returns) (length skips)"
  by (simp add: should_withdraw_of_def)

lemma length_withdraw [simp]:
  "length (withdraw w sw portfolios) = min (length portfolios) (length sw)"
  by (simp add: withdraw_def)

lemma nth_withdraw:
  "j < length portfolios \<Longrightarrow> j < length sw \<Longrightarrow>
   withdraw w sw portfolios ! j = (if sw ! j then portfolios ! j - w else portfolios ! j)"
  by (simp add: withdraw_def)

lemma length_used_skip_of [simp]:
  "length (used_skip_of sw portfolios) = min (length sw) (length portfolios)"
  by (simp add: used_skip_of_def)

lemma nth_used_skip_of:
  "j < length sw \<Longrightarrow> j < length portfolios \<Longrightarrow>
   used_skip_of sw portfolios ! j = (\<not> sw ! j \<and> portfolios ! j > 0)"
  by (simp add: used_skip_of_def)

lemma length_decrement [simp]:
  "length (decrement us skips) = min (length skips) (length us)"
  by (simp add: decrement_def)

lemma nth_decrement:
  "j < length skips \<Longrightarrow> j < length us \<Longrightarrow>
   decrement us skips ! j = (if us ! j then skips ! j - 1 else skips ! j)"
  by (simp add: decrement_def)

lemma floor_at_0_simp [simp]: "floor_at_0 (ps, ss) = (map (\<lambda>p. max p 0) ps, ss)"
  by (simp add: floor_at_0_def)

section \<open>The year step\<close>

text \<open>
  The three properties of this section are about one pass of the loop body,
  \<open>year_body\<close>, from any population of \<open>n_sims\<close> trials: the loop runs it once for
  every year, with \<open>age = curr_age + year_idx\<close>.
\<close>

lemma example_retirement_year:
  "year_body example_plan Expected (const_draws (- 0.1)) 2 64 65 (1, 2)
     ([100000, 100000], [2, 0]) = Inr ([90000, 65030.4], [1, 0])"
  by (simp add: year_body_def market_returns_of_def market_step_def cash_flow_def
      retirement_def net_withdrawal_of_def example_plan_def Expected_def const_draws_def
      should_withdraw_of_def withdraw_def used_skip_of_def decrement_def Let_def upt_rec
      power2_eq_square)

lemma example_accumulation_year:
  "year_body example_plan Flat (const_draws 0) 1 64 65 (0, 1) ([100000], [2])
     = Inr ([112000], [2])"
  by (simp add: year_body_def market_returns_of_def market_step_def cash_flow_def
      accumulation_def contribution_of_def example_plan_def Flat_def const_draws_def)

text \<open>
  Claim C1. In a retirement year (\<open>age > ret_age\<close>) the cash-flow step takes
  \<open>net_withdrawal\<close> from the balance that a trial has after the market step exactly
  when the trial's return of the year is \<open>> 0\<close> or its skip count is \<open>\<le> 0\<close>; a trial
  with a return \<open>\<le> 0\<close> (zero is a down year) and a skip count \<open>> 0\<close> keeps its
  balance. The year then ends with the floor at 0.
\<close>

theorem skip_policy_withdrawal:
  assumes retired: "ret_age < curr_age + year_idx"
    and run: "year_body plan scen draws n_sims curr_age ret_age (i, year_idx) (portfolios, skips)
                = Inr (portfolios', skips')"
    and len: "length portfolios = nat n_sims" "length skips = nat n_sims"
    and j: "j < nat n_sims"
  shows "\<exists>net_withdrawal cf sk.
           net_withdrawal_of plan scen year_idx = Inr net_withdrawal \<and>
           cash_flow plan scen ret_age (curr_age + year_idx) year_idx
             (market_returns_of draws i n_sims)
             (market_step portfolios (market_returns_of draws i n_sims), skips) = Inr (cf, sk) \<and>
           cf ! j = (if draws i j > 0 \<or> skips ! j \<le> 0
                     then portfolios ! j * (1 + draws i j) - net_withdrawal
                     else portfolios ! j * (1 + draws i j)) \<and>
           portfolios' ! j = max (cf ! j) 0"
proof -
  let ?mr = "market_returns_of draws i n_sims"
  let ?pm = "market_step portfolios ?mr"
  from run obtain cf sk where
    cf: "cash_flow plan scen ret_age (curr_age + year_idx) year_idx ?mr (?pm, skips) = Inr (cf, sk)"
    and out: "(portfolios', skips') = floor_at_0 (cf, sk)"
    by (auto simp: year_body_eq_Inr)
  from cf retired have "retirement plan scen year_idx ?mr (?pm, skips) = Inr (cf, sk)"
    by (simp add: cash_flow_def)
  then obtain w where w: "net_withdrawal_of plan scen year_idx = Inr w"
    and cf_eq: "cf = withdraw w (should_withdraw_of ?mr skips) ?pm"
    by (auto simp: retirement_eq_Inr)
  have "cf ! j = (if draws i j > 0 \<or> skips ! j \<le> 0
                  then portfolios ! j * (1 + draws i j) - w
                  else portfolios ! j * (1 + draws i j))"
    using len j by (simp add: cf_eq nth_withdraw nth_should_withdraw_of nth_market_step)
  moreover have "length cf = nat n_sims"
    using len by (simp add: cf_eq)
  then have "portfolios' ! j = max (cf ! j) 0"
    using out j by simp
  ultimately show ?thesis using w cf by blast
qed

theorem skip_policy_withdrawal_witness:
  "year_body example_plan Expected (const_draws (- 0.1)) 2 64 65 (1, 2)
     ([100000, 100000], [2, 0]) = Inr ([90000, 65030.4], [1, 0]) \<and>
   (\<exists>net_withdrawal cf sk.
      net_withdrawal_of example_plan Expected 2 = Inr net_withdrawal \<and>
      cash_flow example_plan Expected 65 (64 + 2) 2
        (market_returns_of (const_draws (- 0.1)) 1 2)
        (market_step [100000, 100000] (market_returns_of (const_draws (- 0.1)) 1 2), [2, 0])
        = Inr (cf, sk) \<and>
      cf ! 1 = (if const_draws (- 0.1) 1 1 > 0 \<or> [2, 0] ! 1 \<le> (0::int)
                then [100000, 100000::real] ! 1 * (1 + const_draws (- 0.1) 1 1) - net_withdrawal
                else [100000, 100000] ! 1 * (1 + const_draws (- 0.1) 1 1)) \<and>
      [90000, 65030.4::real] ! 1 = max (cf ! 1) 0)"
proof -
  have retired: "(65::int) < 64 + 2" by simp
  have len: "length [100000, 100000::real] = nat 2" "length [2, 0::int] = nat 2" by simp_all
  have j: "(1::nat) < nat 2" by simp
  from example_retirement_year
    skip_policy_withdrawal [OF retired example_retirement_year len j]
  show ?thesis by (rule conjI)
qed

text \<open>
  Claim C2. In a retirement year, a trial that skips the withdrawal (return \<open>\<le> 0\<close>,
  skip count \<open>> 0\<close>) loses one skip exactly when its balance after the market step is
  \<open>> 0\<close>; with a balance \<open>\<le> 0\<close> there it keeps its skip count, and so does every
  trial that withdraws.
\<close>

theorem skip_count_decrement:
  assumes retired: "ret_age < curr_age + year_idx"
    and run: "year_body plan scen draws n_sims curr_age ret_age (i, year_idx) (portfolios, skips)
                = Inr (portfolios', skips')"
    and len: "length portfolios = nat n_sims" "length skips = nat n_sims"
    and j: "j < nat n_sims"
  shows "skips' ! j =
           (if \<not> (draws i j > 0 \<or> skips ! j \<le> 0) \<and> portfolios ! j * (1 + draws i j) > 0
            then skips ! j - 1 else skips ! j)"
proof -
  let ?mr = "market_returns_of draws i n_sims"
  let ?pm = "market_step portfolios ?mr"
  let ?sw = "should_withdraw_of ?mr skips"
  from run obtain cf sk where
    cf: "cash_flow plan scen ret_age (curr_age + year_idx) year_idx ?mr (?pm, skips) = Inr (cf, sk)"
    and out: "(portfolios', skips') = floor_at_0 (cf, sk)"
    by (auto simp: year_body_eq_Inr)
  from cf retired have "retirement plan scen year_idx ?mr (?pm, skips) = Inr (cf, sk)"
    by (simp add: cash_flow_def)
  then obtain w where cf_eq: "cf = withdraw w ?sw ?pm"
    and sk_eq: "sk = decrement (used_skip_of ?sw cf) skips"
    by (auto simp: retirement_eq_Inr)
  have sw: "?sw ! j = (draws i j > 0 \<or> skips ! j \<le> 0)"
    using len j by (simp add: nth_should_withdraw_of)
  have cfj: "cf ! j = (if ?sw ! j then ?pm ! j - w else ?pm ! j)"
    using len j by (simp add: cf_eq nth_withdraw)
  have pmj: "?pm ! j = portfolios ! j * (1 + draws i j)"
    using len j by (simp add: nth_market_step)
  have "used_skip_of ?sw cf ! j = (\<not> ?sw ! j \<and> cf ! j > 0)"
    using len j by (simp add: nth_used_skip_of cf_eq)
  then have us: "used_skip_of ?sw cf ! j =
      (\<not> (draws i j > 0 \<or> skips ! j \<le> 0) \<and> portfolios ! j * (1 + draws i j) > 0)"
    using sw cfj pmj by auto
  have "sk ! j = (if used_skip_of ?sw cf ! j then skips ! j - 1 else skips ! j)"
    using len j by (simp add: sk_eq nth_decrement cf_eq)
  moreover have "skips' = sk" using out by simp
  ultimately show ?thesis using us by simp
qed

theorem skip_count_decrement_witness:
  "year_body example_plan Expected (const_draws (- 0.1)) 2 64 65 (1, 2)
     ([100000, 100000], [2, 0]) = Inr ([90000, 65030.4], [1, 0]) \<and>
   [1, 0::int] ! 0 =
     (if \<not> (const_draws (- 0.1) 1 0 > 0 \<or> [2, 0] ! 0 \<le> (0::int)) \<and>
         [100000, 100000] ! 0 * (1 + const_draws (- 0.1) 1 0) > 0
      then [2, 0::int] ! 0 - 1 else [2, 0] ! 0)"
proof -
  have retired: "(65::int) < 64 + 2" by simp
  have len: "length [100000, 100000::real] = nat 2" "length [2, 0::int] = nat 2" by simp_all
  have j: "(0::nat) < nat 2" by simp
  from example_retirement_year
    skip_count_decrement [OF retired example_retirement_year len j]
  show ?thesis by (rule conjI)
qed

text \<open>
  Claim C7. In an accumulation year (\<open>age \<le> ret_age\<close>) the cash-flow step adds
  \<open>monthly_deposit * 12 * (1 + raise_rate) ^ year_idx\<close> to the balance that a trial
  has after the market step, with \<open>year_idx\<close> the running index of the year. With a
  return of 0, a monthly deposit of 1000 and no raise, the year takes a balance \<open>b\<close>
  to \<open>b + 12000\<close> (the floor leaves it alone from \<open>b \<ge> - 12000\<close> on, so for every
  balance that is not negative).
\<close>

theorem accumulation_contribution:
  assumes accum: "curr_age + year_idx \<le> ret_age"
    and run: "year_body plan scen draws n_sims curr_age ret_age (i, year_idx) (portfolios, skips)
                = Inr (portfolios', skips')"
    and len: "length portfolios = nat n_sims"
    and j: "j < nat n_sims"
  shows "\<exists>pf monthly_deposit cf.
           PORTFOLIO plan = Some pf \<and> MONTHLY_DEPOSIT pf = Some monthly_deposit \<and>
           cash_flow plan scen ret_age (curr_age + year_idx) year_idx
             (market_returns_of draws i n_sims)
             (market_step portfolios (market_returns_of draws i n_sims), skips) = Inr (cf, skips) \<and>
           cf ! j = portfolios ! j * (1 + draws i j)
                    + monthly_deposit * 12 * (1 + raise_rate scen) ^ nat year_idx \<and>
           portfolios' ! j = max (cf ! j) 0 \<and>
           (draws i j = 0 \<and> monthly_deposit = 1000 \<and> raise_rate scen = 0 \<and>
              - 12000 \<le> portfolios ! j \<longrightarrow> portfolios' ! j = portfolios ! j + 12000)"
proof -
  let ?mr = "market_returns_of draws i n_sims"
  let ?pm = "market_step portfolios ?mr"
  from run obtain cf sk where
    cf: "cash_flow plan scen ret_age (curr_age + year_idx) year_idx ?mr (?pm, skips) = Inr (cf, sk)"
    and out: "(portfolios', skips') = floor_at_0 (cf, sk)"
    by (auto simp: year_body_eq_Inr)
  from cf accum have "accumulation plan scen year_idx (?pm, skips) = Inr (cf, sk)"
    by (simp add: cash_flow_def)
  then obtain c where c: "contribution_of plan scen year_idx = Inr c"
    and cf_eq: "cf = map (\<lambda>p. p + c) ?pm" and sk: "sk = skips"
    by (auto simp: accumulation_eq_Inr)
  from c obtain pf md where pf: "PORTFOLIO plan = Some pf" "MONTHLY_DEPOSIT pf = Some md"
    and c_eq: "c = md * 12 * (1 + raise_rate scen) ^ nat year_idx"
    by (auto simp: contribution_of_eq_Inr)
  have cfj: "cf ! j = portfolios ! j * (1 + draws i j) + md * 12 * (1 + raise_rate scen) ^ nat year_idx"
    using len j by (simp add: cf_eq nth_market_step c_eq)
  have "length cf = nat n_sims" using len by (simp add: cf_eq)
  then have pj: "portfolios' ! j = max (cf ! j) 0"
    using out j by simp
  have "portfolios' ! j = portfolios ! j + 12000"
    if "draws i j = 0" "md = 1000" "raise_rate scen = 0" "- 12000 \<le> portfolios ! j"
    using that pj cfj by simp
  then show ?thesis using pf cf sk cfj pj by blast
qed

theorem accumulation_contribution_witness:
  "year_body example_plan Flat (const_draws 0) 1 64 65 (0, 1) ([100000], [2])
     = Inr ([112000], [2]) \<and>
   (\<exists>pf monthly_deposit cf.
      PORTFOLIO example_plan = Some pf \<and> MONTHLY_DEPOSIT pf = Some monthly_deposit \<and>
      cash_flow example_plan Flat 65 (64 + 1) 1 (market_returns_of (const_draws 0) 0 1)
        (market_step [100000] (market_returns_of (const_draws 0) 0 1), [2]) = Inr (cf, [2]) \<and>
      cf ! 0 = [100000::real] ! 0 * (1 + const_draws 0 0 0)
               + monthly_deposit * 12 * (1 + raise_rate Flat) ^ nat 1 \<and>
      [112000::real] ! 0 = max (cf ! 0) 0 \<and>
      (const_draws 0 0 0 = 0 \<and> monthly_deposit = 1000 \<and> raise_rate Flat = 0 \<and>
         - 12000 \<le> [100000::real] ! 0 \<longrightarrow> [112000::real] ! 0 = [100000] ! 0 + 12000))"
proof -
  have accum: "(64::int) + 1 \<le> 65" by simp
  have len: "length [100000::real] = nat 1" by simp
  have j: "(0::nat) < nat 1" by simp
  from example_accumulation_year
    accumulation_contribution [OF accum example_accumulation_year len j]
  show ?thesis by (rule conjI)
qed

section \<open>The loop\<close>

text \<open>
  The population after \<open>k\<close> years of a run is
  \<open>year_loop \<dots> (year_range k) st0\<close>, with \<open>st0\<close> the population that \<open>init_run\<close>
  builds: the loop over \<open>year_range years\<close> passes through it for every \<open>k\<close> from 0
  to \<open>years\<close> (\<open>year_range_add\<close>, \<open>year_loop_append\<close>, \<open>year_loop_prefix\<close>).
\<close>

lemma year_loop_append:
  "year_loop plan scen draws n_sims curr_age ret_age (xs @ ys) st =
   ebind (year_loop plan scen draws n_sims curr_age ret_age xs st)
     (year_loop plan scen draws n_sims curr_age ret_age ys)"
proof (induction xs arbitrary: st)
  case Nil
  show ?case by simp
next
  case (Cons iy xs)
  show ?case
    by (cases "year_body plan scen draws n_sims curr_age ret_age iy st") (simp_all add: Cons.IH)
qed

lemma year_range_nonpos [simp]: "years \<le> 0 \<Longrightarrow> year_range years = []"
  by (simp add: year_range_def)

lemma year_range_add:
  assumes "0 \<le> k" and "0 \<le> h"
  shows "year_range (k + h) = year_range k @ enumerate (nat k) [k + 1..k + h]"
proof (cases "k = 0")
  case True
  then show ?thesis by (simp add: year_range_def)
next
  case False
  with assms have "[1..k + h] = [1..k] @ [k + 1..k + h]"
    by (intro upto_split2) simp_all
  then show ?thesis
    using assms by (simp add: year_range_def enumerate_append_eq)
qed


lemma year_body_length:
  assumes "year_body plan scen draws n_sims curr_age ret_age iy (portfolios, skips)
             = Inr (portfolios', skips')"
    and "length portfolios = nat n_sims" and "length skips = nat n_sims"
  shows "length portfolios' = nat n_sims \<and> length skips' = nat n_sims"
proof -
  obtain i year_idx where iy: "iy = (i, year_idx)" by (cases iy)
  show ?thesis
    using assms unfolding iy
    by (auto simp: year_body_eq_Inr cash_flow_def accumulation_eq_Inr retirement_eq_Inr
        split: if_splits)
qed

lemma year_body_nonneg:
  assumes "year_body plan scen draws n_sims curr_age ret_age iy st = Inr (portfolios', skips')"
  shows "\<forall>p\<in>set portfolios'. 0 \<le> p"
proof -
  obtain i year_idx where iy: "iy = (i, year_idx)" by (cases iy)
  obtain portfolios skips where st: "st = (portfolios, skips)" by (cases st)
  from assms obtain cf sk where "(portfolios', skips') = floor_at_0 (cf, sk)"
    unfolding iy st by (auto simp: year_body_eq_Inr)
  then show ?thesis by auto
qed

lemma year_body_skips:
  assumes run: "year_body plan scen draws n_sims curr_age ret_age iy (portfolios, skips)
             = Inr (portfolios', skips')"
    and len: "length portfolios = nat n_sims" "length skips = nat n_sims"
    and j: "j < nat n_sims"
  shows "skips' ! j = skips ! j \<or> (0 < skips ! j \<and> skips' ! j = skips ! j - 1)"
proof -
  obtain i year_idx where iy: "iy = (i, year_idx)" by (cases iy)
  show ?thesis
  proof (cases "curr_age + year_idx \<le> ret_age")
    case True
    with run have "skips' = skips"
      unfolding iy by (auto simp: year_body_eq_Inr cash_flow_def accumulation_eq_Inr)
    then show ?thesis by simp
  next
    case False
    let ?mr = "market_returns_of draws i n_sims"
    let ?sw = "should_withdraw_of ?mr skips"
    from run False obtain cf where
      sk: "skips' = decrement (used_skip_of ?sw cf) skips" and lcf: "length cf = nat n_sims"
      unfolding iy using len
      by (auto simp: year_body_eq_Inr cash_flow_def retirement_eq_Inr)
    have "skips' ! j = (if used_skip_of ?sw cf ! j then skips ! j - 1 else skips ! j)"
      using len j lcf by (simp add: sk nth_decrement)
    moreover have "0 < skips ! j" if "used_skip_of ?sw cf ! j"
      using that len j lcf by (simp add: nth_used_skip_of nth_should_withdraw_of)
    ultimately show ?thesis by auto
  qed
qed

lemma year_loop_length:
  assumes "year_loop plan scen draws n_sims curr_age ret_age ys (portfolios, skips)
             = Inr (portfolios', skips')"
    and "length portfolios = nat n_sims" and "length skips = nat n_sims"
  shows "length portfolios' = nat n_sims \<and> length skips' = nat n_sims"
  using assms
proof (induction ys arbitrary: portfolios skips)
  case Nil
  then show ?case by simp
next
  case (Cons iy ys)
  from Cons.prems(1) obtain ps ss where
    body: "year_body plan scen draws n_sims curr_age ret_age iy (portfolios, skips) = Inr (ps, ss)"
    and rest: "year_loop plan scen draws n_sims curr_age ret_age ys (ps, ss) = Inr (portfolios', skips')"
    by (auto simp: ebind_eq_Inr)
  from year_body_length [OF body Cons.prems(2,3)] Cons.IH [OF rest]
  show ?case by simp
qed

lemma year_loop_skips:
  assumes "year_loop plan scen draws n_sims curr_age ret_age ys (portfolios, skips)
             = Inr (portfolios', skips')"
    and "length portfolios = nat n_sims" and "length skips = nat n_sims"
    and "j < nat n_sims"
  shows "skips' ! j \<le> skips ! j \<and> skips ! j - int (length ys) \<le> skips' ! j \<and>
         min 0 (skips ! j) \<le> skips' ! j"
  using assms
proof (induction ys arbitrary: portfolios skips)
  case Nil
  then show ?case by simp
next
  case (Cons iy ys)
  from Cons.prems(1) obtain ps ss where
    body: "year_body plan scen draws n_sims curr_age ret_age iy (portfolios, skips) = Inr (ps, ss)"
    and rest: "year_loop plan scen draws n_sims curr_age ret_age ys (ps, ss) = Inr (portfolios', skips')"
    by (auto simp: ebind_eq_Inr)
  from year_body_length [OF body Cons.prems(2,3)]
  have len: "length ps = nat n_sims" "length ss = nat n_sims" by simp_all
  from year_body_skips [OF body Cons.prems(2,3,4)]
  have step: "ss ! j = skips ! j \<or> (0 < skips ! j \<and> ss ! j = skips ! j - 1)" .
  from Cons.IH [OF rest len Cons.prems(4)]
  have ih: "skips' ! j \<le> ss ! j" "ss ! j - int (length ys) \<le> skips' ! j"
    "min 0 (ss ! j) \<le> skips' ! j" by simp_all
  from step ih show ?case by auto
qed

lemma year_loop_nonneg:
  assumes "year_loop plan scen draws n_sims curr_age ret_age ys st = Inr (portfolios', skips')"
    and "ys \<noteq> []"
  shows "\<forall>p\<in>set portfolios'. 0 \<le> p"
proof -
  from assms(2) obtain zs iy where ys: "ys = zs @ [iy]"
    by (cases ys rule: rev_cases) simp_all
  from assms(1) obtain prev where
    "year_body plan scen draws n_sims curr_age ret_age iy prev = Inr (portfolios', skips')"
    unfolding ys by (auto simp: year_loop_append ebind_eq_Inr)
  then show ?thesis by (rule year_body_nonneg)
qed

lemma init_run_eq_Inr:
  "init_run n_sims plan = Inr (curr_age, ret_age, years, st) \<longleftrightarrow>
   (\<exists>rt pf death_age current emergency_savings.
      CURRENT_AGE plan = Some curr_age \<and> RETIREMENT plan = Some rt \<and>
      RETIREMENT_AGE rt = Some ret_age \<and> DEATH_AGE rt = Some death_age \<and>
      years = death_age - curr_age \<and> PORTFOLIO plan = Some pf \<and>
      CURRENT pf = Some current \<and> EMERGENCY_SAVINGS rt = Some emergency_savings \<and>
      0 \<le> n_sims \<and>
      st = (replicate (nat n_sims) current, replicate (nat n_sims) emergency_savings))"
  by (auto simp: init_run_def ebind_eq_Inr getitem_eq_Inr np_full_def Let_def split: if_splits)

lemma final_population_eq_Inr:
  "final_population n_sims plan scen draws = Inr st \<longleftrightarrow>
   (\<exists>curr_age ret_age years st0.
      init_run n_sims plan = Inr (curr_age, ret_age, years, st0) \<and>
      year_loop plan scen draws n_sims curr_age ret_age (year_range years) st0 = Inr st)"
  by (auto simp: final_population_def ebind_eq_Inr)

lemma year_loop_prefix:
  assumes "year_loop plan scen draws n_sims curr_age ret_age (year_range years) st0 = Inr st"
    and "0 \<le> k" and "k \<le> years"
  shows "\<exists>stk. year_loop plan scen draws n_sims curr_age ret_age (year_range k) st0 = Inr stk"
proof -
  have "year_range years = year_range k @ enumerate (nat k) [k + 1..k + (years - k)]"
    using year_range_add [of k "years - k"] assms(2,3) by simp
  with assms(1) show ?thesis
    by (auto simp: year_loop_append ebind_eq_Inr)
qed

section \<open>Invariants of the run\<close>

text \<open>The example plan with two trials, every return \<open>- 0.1\<close>, after one and two years.\<close>

lemma example_after_year_1:
  "year_loop example_plan Flat (const_draws (- 0.1)) 2 64 65 (year_range 1)
     ([100000, 100000], [2, 2]) = Inr ([102000, 102000], [2, 2])"
  by code_simp

lemma example_after_year_2:
  "year_loop example_plan Flat (const_draws (- 0.1)) 2 64 65 (year_range (1 + 1))
     ([100000, 100000], [2, 2]) = Inr ([91800, 91800], [1, 1])"
  by code_simp

lemma example_init_run:
  "init_run 2 example_plan = Inr (64, 65, 3, ([100000, 100000], [2, 2]))"
  by code_simp



text \<open>
  Claim C5. The skip count of a trial never goes up from one year to a later one, it
  loses at most 1 a year and only when it is \<open>> 0\<close>, it stays at or below
  \<open>emergency_savings\<close>, where it starts, and it is never negative when
  \<open>emergency_savings\<close> is not. Here \<open>skips\<close> are the counts after \<open>k\<close> years and
  \<open>skips'\<close> the counts \<open>h\<close> years later.
\<close>

theorem skip_count_monotone:
  assumes init: "init_run n_sims plan = Inr (curr_age, ret_age, years, st0)"
    and es: "RETIREMENT plan = Some rt" "EMERGENCY_SAVINGS rt = Some emergency_savings"
    and k: "0 \<le> k" and h: "0 \<le> h"
    and at_k: "year_loop plan scen draws n_sims curr_age ret_age (year_range k) st0
                 = Inr (portfolios, skips)"
    and at_kh: "year_loop plan scen draws n_sims curr_age ret_age (year_range (k + h)) st0
                  = Inr (portfolios', skips')"
    and j: "j < nat n_sims"
  shows "skips' ! j \<le> skips ! j \<and> skips ! j - h \<le> skips' ! j \<and>
         skips ! j \<le> emergency_savings \<and>
         (0 \<le> emergency_savings \<longrightarrow> 0 \<le> skips' ! j) \<and>
         (h = 1 \<longrightarrow> skips' ! j = skips ! j \<or> (0 < skips ! j \<and> skips' ! j = skips ! j - 1))"
proof -
  let ?tail = "enumerate (nat k) [k + 1..k + h]"
  from init es obtain current where
    st0: "st0 = (replicate (nat n_sims) current, replicate (nat n_sims) emergency_savings)"
    by (auto simp: init_run_eq_Inr)
  from at_k have len: "length portfolios = nat n_sims" "length skips = nat n_sims"
    using year_loop_length [of plan scen draws n_sims curr_age ret_age "year_range k"
        "replicate (nat n_sims) current" "replicate (nat n_sims) emergency_savings"]
    unfolding st0 by simp_all
  from at_k j have first: "skips ! j \<le> emergency_savings" "min 0 emergency_savings \<le> skips ! j"
    using year_loop_skips [of plan scen draws n_sims curr_age ret_age "year_range k"
        "replicate (nat n_sims) current" "replicate (nat n_sims) emergency_savings" _ _ j]
    unfolding st0 by simp_all
  have tail: "year_loop plan scen draws n_sims curr_age ret_age ?tail (portfolios, skips)
                = Inr (portfolios', skips')"
    using at_kh at_k by (simp add: year_range_add [OF k h] year_loop_append)
  have "length ?tail = nat h" by simp
  with year_loop_skips [OF tail len j] h
  have later: "skips' ! j \<le> skips ! j" "skips ! j - h \<le> skips' ! j"
    "min 0 (skips ! j) \<le> skips' ! j" by simp_all
  have one: "skips' ! j = skips ! j \<or> (0 < skips ! j \<and> skips' ! j = skips ! j - 1)" if "h = 1"
  proof -
    from tail that have "year_body plan scen draws n_sims curr_age ret_age (nat k, k + 1)
        (portfolios, skips) = Inr (portfolios', skips')"
      by (simp add: ebind_eq_Inr)
    from year_body_skips [OF this len j] show ?thesis .
  qed
  from first later one show ?thesis by auto
qed

theorem skip_count_monotone_witness:
  "init_run 2 example_plan = Inr (64, 65, 3, ([100000, 100000], [2, 2])) \<and>
   year_loop example_plan Flat (const_draws (- 0.1)) 2 64 65 (year_range 1)
     ([100000, 100000], [2, 2]) = Inr ([102000, 102000], [2, 2]) \<and>
   year_loop example_plan Flat (const_draws (- 0.1)) 2 64 65 (year_range (1 + 1))
     ([100000, 100000], [2, 2]) = Inr ([91800, 91800], [1, 1]) \<and>
   [1, 1::int] ! 0 \<le> [2, 2] ! 0 \<and> [2, 2] ! 0 - 1 \<le> [1, 1::int] ! 0 \<and>
   [2, 2] ! 0 \<le> (2::int) \<and> 0 \<le> [1, 1::int] ! 0 \<and>
   ([1, 1::int] ! 0 = [2, 2] ! 0 \<or> (0 < [2, 2::int] ! 0 \<and> [1, 1::int] ! 0 = [2, 2] ! 0 - 1))"
proof -
  have rt: "RETIREMENT example_plan = Some \<lparr>RETIREMENT_AGE = Some 65, DEATH_AGE = Some 67,
      EMERGENCY_SAVINGS = Some 2, ANNUAL_SPEND = Some 40000, SOCIAL_SECURITY = Some 15000\<rparr>"
    by (simp add: example_plan_def)
  have es: "EMERGENCY_SAVINGS \<lparr>RETIREMENT_AGE = Some 65, DEATH_AGE = Some 67,
      EMERGENCY_SAVINGS = Some 2, ANNUAL_SPEND = Some 40000, SOCIAL_SECURITY = Some 15000\<rparr>
      = Some 2" by simp
  have k: "(0::int) \<le> 1" and h: "(0::int) \<le> 1" by simp_all
  have j: "(0::nat) < nat 2" by simp
  note inst = skip_count_monotone [OF example_init_run rt es k h example_after_year_1
      example_after_year_2 j]
  have nonneg: "(0::int) \<le> 2" and one: "(1::int) = 1" by simp_all
  from inst nonneg have "0 \<le> [1, 1::int] ! 0" by blast
  moreover from inst one
  have "[1, 1::int] ! 0 = [2, 2] ! 0 \<or> (0 < [2, 2::int] ! 0 \<and> [1, 1::int] ! 0 = [2, 2] ! 0 - 1)"
    by blast
  moreover from inst
  have "[1, 1::int] ! 0 \<le> [2, 2] ! 0" "[2, 2] ! 0 - 1 \<le> [1, 1::int] ! 0" "[2, 2] ! 0 \<le> (2::int)"
    by blast+
  ultimately show ?thesis using example_init_run example_after_year_1 example_after_year_2
    by (intro conjI)
qed

section \<open>The reduction to the two outputs\<close>

lemma take_1_drop:
  assumes "i < length xs"
  shows "take 1 (drop i xs) = [xs ! i]"
proof -
  from assms have "drop i xs = xs ! i # drop (Suc i) xs"
    by (simp add: Cons_nth_drop_Suc)
  then show ?thesis by simp
qed

lemma take_2_drop:
  assumes "Suc i < length xs"
  shows "take 2 (drop i xs) = [xs ! i, xs ! Suc i]"
proof -
  from assms have "drop i xs = xs ! i # xs ! Suc i # drop (Suc (Suc i)) xs"
    by (simp add: Cons_nth_drop_Suc)
  then show ?thesis by (simp add: numeral_2_eq_2)
qed

lemma np_median_standard:
  assumes "a \<noteq> []"
  shows "np_median a = standard_median a"
proof (cases "even (length a)")
  case True
  with assms have pos: "0 < length a div 2"
    by (cases a) (auto elim!: evenE)
  then have "Suc (length a div 2 - 1) < length (sort a)" by simp
  from take_2_drop [OF this] pos True show ?thesis
    by (simp add: np_median_def standard_median_def mean_def Let_def even_iff_mod_2_eq_zero)
next
  case False
  with assms have "length a div 2 < length (sort a)" by simp
  from take_1_drop [OF this] False show ?thesis
    by (simp add: np_median_def standard_median_def mean_def Let_def even_iff_mod_2_eq_zero)
qed

lemma success_rate_of_bounds:
  assumes "1 \<le> n_sims" and "length portfolios = nat n_sims"
  shows "0 \<le> success_rate_of portfolios n_sims \<and> success_rate_of portfolios n_sims \<le> 100"
proof -
  have "length (filter (\<lambda>p. 0 < p) portfolios) \<le> nat n_sims"
    using assms(2) length_filter_le [of "\<lambda>p. 0 < p" portfolios] by simp
  then have "real (length (filter (\<lambda>p. 0 < p) portfolios)) \<le> real_of_int n_sims"
    using assms(1) by linarith
  moreover have "0 < real_of_int n_sims" using assms(1) by simp
  ultimately show ?thesis
    by (simp add: success_rate_of_def divide_le_eq)
qed

lemma final_population_length:
  assumes "final_population n_sims plan scen draws = Inr (portfolios, skips)"
  shows "length portfolios = nat n_sims \<and> length skips = nat n_sims"
proof -
  from assms obtain curr_age ret_age years st0 where
    init: "init_run n_sims plan = Inr (curr_age, ret_age, years, st0)"
    and loop: "year_loop plan scen draws n_sims curr_age ret_age (year_range years) st0
                 = Inr (portfolios, skips)"
    by (auto simp: final_population_eq_Inr)
  from init obtain current es where
    st0: "st0 = (replicate (nat n_sims) current, replicate (nat n_sims) es)"
    by (auto simp: init_run_eq_Inr)
  from loop show ?thesis
    unfolding st0 by (rule year_loop_length) simp_all
qed

lemma run_sim_eq_Inr:
  "run_sim n_sims plan scen draws = Inr out \<longleftrightarrow>
   (\<exists>portfolios skips. final_population n_sims plan scen draws = Inr (portfolios, skips) \<and>
      n_sims \<noteq> 0 \<and> out = (success_rate_of portfolios n_sims, np_median portfolios))"
  by (auto simp: run_sim_def reduce_def ebind_eq_Inr Let_def split: if_splits)

text \<open>
  Claim C6. A run with \<open>n_sims \<ge> 1\<close> that returns has a final population of \<open>n_sims\<close>
  balances; its success rate is 100 times the number of balances \<open>> 0\<close> over
  \<open>n_sims\<close>, which lies between 0 and 100, and its median is the standard median of
  the balances (the mean of the two middle values when \<open>n_sims\<close> is even).
\<close>

theorem reduction_outputs:
  assumes n: "1 \<le> n_sims"
    and run: "run_sim n_sims plan scen draws = Inr (success_rate, median_final)"
  shows "\<exists>portfolios skips.
           final_population n_sims plan scen draws = Inr (portfolios, skips) \<and>
           length portfolios = nat n_sims \<and>
           success_rate = 100 * real (length (filter (\<lambda>p. 0 < p) portfolios)) / real_of_int n_sims \<and>
           0 \<le> success_rate \<and> success_rate \<le> 100 \<and>
           median_final = standard_median portfolios"
proof -
  from run obtain portfolios skips where
    fin: "final_population n_sims plan scen draws = Inr (portfolios, skips)"
    and sr: "success_rate = success_rate_of portfolios n_sims"
    and med: "median_final = np_median portfolios"
    by (auto simp: run_sim_eq_Inr)
  from final_population_length [OF fin] have len: "length portfolios = nat n_sims" ..
  with n have "portfolios \<noteq> []" by auto
  then have "median_final = standard_median portfolios"
    by (simp add: med np_median_standard)
  moreover have "success_rate = 100 * real (length (filter (\<lambda>p. 0 < p) portfolios)) / real_of_int n_sims"
    by (simp add: sr success_rate_of_def)
  moreover from success_rate_of_bounds [OF n len]
  have "0 \<le> success_rate" "success_rate \<le> 100" by (simp_all add: sr)
  ultimately show ?thesis using fin len by blast
qed

lemma example_run:
  "run_sim 2 example_plan Flat (const_draws (- 0.1)) = Inr (100, 82620)"
  by code_simp

theorem reduction_outputs_witness:
  "run_sim 2 example_plan Flat (const_draws (- 0.1)) = Inr (100, 82620) \<and>
   (\<exists>portfolios skips.
      final_population 2 example_plan Flat (const_draws (- 0.1)) = Inr (portfolios, skips) \<and>
      length portfolios = nat 2 \<and>
      (100::real) = 100 * real (length (filter (\<lambda>p. 0 < p) portfolios)) / real_of_int 2 \<and>
      (0::real) \<le> 100 \<and> (100::real) \<le> 100 \<and>
      82620 = standard_median portfolios)"
proof -
  have n: "(1::int) \<le> 2" by simp
  from example_run reduction_outputs [OF n example_run]
  show ?thesis by (rule conjI)
qed

lemma mset_eq_sort_eq:
  fixes xs ys :: "real list"
  assumes "mset ys = mset xs"
  shows "sort ys = sort xs"
proof (rule properties_for_sort)
  show "mset (sort xs) = mset ys" using assms by simp
  show "sorted (sort xs)" by simp
qed

text \<open>
  Claim C10. Two populations that are permutations of each other (the same balances
  with the same multiplicities) reduce to the same success rate and the same median.
\<close>

theorem reduction_permutation_invariant:
  assumes perm: "mset portfolios' = mset portfolios"
  shows "success_rate_of portfolios' n_sims = success_rate_of portfolios n_sims \<and>
         np_median portfolios' = np_median portfolios \<and>
         reduce n_sims portfolios' = reduce n_sims portfolios"
proof -
  from perm have len: "length portfolios' = length portfolios"
    by (rule mset_eq_length)
  from perm have "mset (filter (\<lambda>p. 0 < p) portfolios') = mset (filter (\<lambda>p. 0 < p) portfolios)"
    by simp
  then have "length (filter (\<lambda>p. 0 < p) portfolios') = length (filter (\<lambda>p. 0 < p) portfolios)"
    by (rule mset_eq_length)
  then have sr: "success_rate_of portfolios' n_sims = success_rate_of portfolios n_sims"
    by (simp add: success_rate_of_def)
  from perm have "sort portfolios' = sort portfolios"
    by (rule mset_eq_sort_eq)
  with len have med: "np_median portfolios' = np_median portfolios"
    by (simp add: np_median_def)
  from sr med show ?thesis by (simp add: reduce_def)
qed

theorem reduction_permutation_invariant_witness:
  "mset [30, 0, 10, 20::real] = mset [0, 10, 20, 30] \<and>
   success_rate_of [30, 0, 10, 20] 4 = success_rate_of [0, 10, 20, 30] 4 \<and>
   np_median [30, 0, 10, 20] = np_median [0, 10, 20, 30] \<and>
   reduce 4 [30, 0, 10, 20] = reduce 4 [0, 10, 20, 30]"
proof -
  have perm: "mset [30, 0, 10, 20::real] = mset [0, 10, 20, 30]" by simp
  from perm reduction_permutation_invariant [OF perm, of 4]
  show ?thesis by (rule conjI)
qed

lemma np_median_replicate:
  assumes "0 < n"
  shows "np_median (replicate n c) = c"
proof -
  have srt: "sort (replicate n c) = replicate n c"
    by (simp add: sorted_sort_id)
  have idx: "length (replicate n c) div 2 < n" "length (replicate n c) div 2 - 1 < n"
    using assms by simp_all
  from assms have "np_median (replicate n c) = standard_median (replicate n c)"
    by (intro np_median_standard) auto
  also have "\<dots> = c"
    using idx by (simp add: standard_median_def srt del: length_replicate)
  finally show ?thesis .
qed

lemma success_rate_of_replicate:
  assumes "1 \<le> n_sims"
  shows "success_rate_of (replicate (nat n_sims) c) n_sims = (if 0 < c then 100 else 0)"
  using assms by (simp add: success_rate_of_def)

text \<open>
  Claim C8. A plan that has the seven keys read before the loop, with a death age at
  or before the current age, runs zero year steps for every \<open>n_sims \<ge> 1\<close>: the run
  returns the initial population's median, \<open>portfolio_current\<close>, and a success rate of
  100 when \<open>portfolio_current > 0\<close> and of 0 otherwise. No error is raised.
\<close>

theorem zero_years_run:
  assumes curr: "CURRENT_AGE plan = Some curr_age"
    and rt: "RETIREMENT plan = Some rt"
    and ret: "RETIREMENT_AGE rt = Some ret_age"
    and death: "DEATH_AGE rt = Some death_age"
    and pf: "PORTFOLIO plan = Some pf"
    and cur: "CURRENT pf = Some current"
    and es: "EMERGENCY_SAVINGS rt = Some emergency_savings"
    and ages: "death_age \<le> curr_age"
    and n: "1 \<le> n_sims"
  shows "year_range (death_age - curr_age) = [] \<and>
         final_population n_sims plan scen draws
           = Inr (replicate (nat n_sims) current, replicate (nat n_sims) emergency_savings) \<and>
         run_sim n_sims plan scen draws = Inr (if 0 < current then 100 else 0, current)"
proof -
  from ages have no_years: "year_range (death_age - curr_age) = []" by simp
  from n have init: "init_run n_sims plan = Inr (curr_age, ret_age, death_age - curr_age,
      (replicate (nat n_sims) current, replicate (nat n_sims) emergency_savings))"
    by (simp add: init_run_eq_Inr curr rt ret death pf cur es)
  have fin: "final_population n_sims plan scen draws
      = Inr (replicate (nat n_sims) current, replicate (nat n_sims) emergency_savings)"
    by (simp add: final_population_def init no_years)
  from n have "0 < nat n_sims" by simp
  then have med: "np_median (replicate (nat n_sims) current) = current"
    by (rule np_median_replicate)
  from n have "run_sim n_sims plan scen draws = Inr (if 0 < current then 100 else 0, current)"
    by (simp add: run_sim_def fin reduce_def med success_rate_of_replicate)
  with no_years fin show ?thesis by simp
qed

theorem zero_years_run_witness:
  "(60::int) \<le> 70 \<and> (1::int) \<le> 3 \<and>
   year_range (60 - 70) = [] \<and>
   final_population 3 backward_plan Conservative (const_draws 0)
     = Inr (replicate (nat 3) 1000, replicate (nat 3) 0) \<and>
   run_sim 3 backward_plan Conservative (const_draws 0)
     = Inr (if (0::real) < 1000 then 100 else 0, 1000)"
proof -
  let ?pf = "\<lparr>CURRENT = Some 1000, MONTHLY_DEPOSIT = None, ANNUAL_DIVIDENDS = None\<rparr>"
  let ?rt = "\<lparr>RETIREMENT_AGE = Some 65, DEATH_AGE = Some 60, EMERGENCY_SAVINGS = Some 0,
      ANNUAL_SPEND = None, SOCIAL_SECURITY = None\<rparr>"
  have curr: "CURRENT_AGE backward_plan = Some 70"
    and rt: "RETIREMENT backward_plan = Some ?rt"
    and pf: "PORTFOLIO backward_plan = Some ?pf"
    by (simp_all add: backward_plan_def)
  have ret: "RETIREMENT_AGE ?rt = Some 65" and death: "DEATH_AGE ?rt = Some 60"
    and es: "EMERGENCY_SAVINGS ?rt = Some 0" and cur: "CURRENT ?pf = Some 1000"
    by simp_all
  have ages: "(60::int) \<le> 70" and n: "(1::int) \<le> 3" by simp_all
  from ages n zero_years_run [OF curr rt ret death pf cur es ages n, of Conservative "const_draws 0"]
  show ?thesis by (intro conjI) simp_all
qed

section \<open>What is checked before the loop\<close>

text \<open>
  \<^verbatim>\<open>run_sim\<close> has no validation of its own and no \<^verbatim>\<open>ConfigurationError\<close>: the only
  failure before the loop is the \<^verbatim>\<open>KeyError\<close> of a dictionary read (and the
  \<^verbatim>\<open>ValueError\<close> of a negative \<^verbatim>\<open>n_sims\<close>). The ages are read and subtracted, never
  compared. The run below, of a plan whose death age is before its current age and
  which lacks \<^verbatim>\<open>MONTHLY DEPOSIT\<close>, \<^verbatim>\<open>ANNUAL DIVIDENDS\<close>, \<^verbatim>\<open>ANNUAL SPEND\<close> and
  \<^verbatim>\<open>SOCIAL SECURITY\<close>, returns its two outputs.
\<close>

theorem no_configuration_error_counterexample:
  "run_sim 1 backward_plan Expected (const_draws 0) = Inr (100, 1000)"
  by code_simp

text \<open>
  Claim C3, as the code has it. A plan that lacks one of the seven keys read on lines
  28 to 35 makes the run fail before the loop, for every \<open>n_sims \<ge> 0\<close>, with the
  \<^verbatim>\<open>KeyError\<close> of the first of them in reading order, which names the key.
\<close>

theorem missing_key_raises_KeyError:
  assumes missing: "first_missing_key plan = Some k"
    and n: "0 \<le> n_sims"
  shows "init_run n_sims plan = Inl (KeyError k) \<and>
         final_population n_sims plan scen draws = Inl (KeyError k) \<and>
         run_sim n_sims plan scen draws = Inl (KeyError k)"
proof -
  from missing n have "init_run n_sims plan = Inl (KeyError k)"
    by (auto simp: first_missing_key_def init_run_def np_full_def Let_def
        split: option.splits)
  then show ?thesis
    by (simp add: final_population_def run_sim_def)
qed

lemma ageless_plan_missing: "first_missing_key ageless_plan = Some ''DEATH AGE''"
  by (simp add: first_missing_key_def ageless_plan_def)

theorem missing_key_raises_KeyError_witness:
  "first_missing_key ageless_plan = Some ''DEATH AGE'' \<and> (0::int) \<le> 3 \<and>
   init_run 3 ageless_plan = Inl (KeyError ''DEATH AGE'') \<and>
   final_population 3 ageless_plan Expected (const_draws 0) = Inl (KeyError ''DEATH AGE'') \<and>
   run_sim 3 ageless_plan Expected (const_draws 0) = Inl (KeyError ''DEATH AGE'')"
proof -
  have n: "(0::int) \<le> 3" by simp
  from ageless_plan_missing n
    missing_key_raises_KeyError [OF ageless_plan_missing n, of Expected "const_draws 0"]
  show ?thesis by (intro conjI) simp_all
qed

text \<open>With the seven keys there and \<open>n_sims \<ge> 0\<close>, nothing fails before the loop.\<close>

lemma init_run_succeeds:
  assumes "first_missing_key plan = None" and "0 \<le> n_sims"
  shows "\<exists>curr_age ret_age years st0. init_run n_sims plan = Inr (curr_age, ret_age, years, st0)"
  using assms
  by (auto simp: first_missing_key_def init_run_def np_full_def Let_def split: option.splits)

section \<open>The run as a function of its draws\<close>

lemma market_returns_of_cong:
  assumes "\<forall>j<nat n_sims. draws' i j = draws i j"
  shows "market_returns_of draws' i n_sims = market_returns_of draws i n_sims"
  using assms by (simp add: market_returns_of_def)

lemma year_body_cong:
  assumes "\<forall>j<nat n_sims. draws' (fst iy) j = draws (fst iy) j"
  shows "year_body plan scen draws' n_sims curr_age ret_age iy st
         = year_body plan scen draws n_sims curr_age ret_age iy st"
proof -
  obtain i year_idx where iy: "iy = (i, year_idx)" by (cases iy)
  from assms have "market_returns_of draws' i n_sims = market_returns_of draws i n_sims"
    unfolding iy by (simp add: market_returns_of_cong)
  then show ?thesis
    unfolding iy by (simp add: year_body_def)
qed

lemma year_loop_cong:
  assumes "\<forall>iy\<in>set ys. \<forall>j<nat n_sims. draws' (fst iy) j = draws (fst iy) j"
  shows "year_loop plan scen draws' n_sims curr_age ret_age ys st
         = year_loop plan scen draws n_sims curr_age ret_age ys st"
  using assms
proof (induction ys arbitrary: st)
  case Nil
  show ?case by simp
next
  case (Cons iy ys)
  from Cons.prems have body: "year_body plan scen draws' n_sims curr_age ret_age iy st
      = year_body plan scen draws n_sims curr_age ret_age iy st"
    by (intro year_body_cong) simp
  from Cons.prems have "year_loop plan scen draws' n_sims curr_age ret_age ys st'
      = year_loop plan scen draws n_sims curr_age ret_age ys st'" for st'
    by (intro Cons.IH) simp
  then have "year_loop plan scen draws' n_sims curr_age ret_age ys
      = year_loop plan scen draws n_sims curr_age ret_age ys"
    by (rule ext)
  with body show ?case by simp
qed

lemma fst_year_range:
  assumes "iy \<in> set (year_range k)"
  shows "fst iy < nat k"
  using assms by (auto simp: year_range_def in_set_enumerate_eq)

lemma year_body_replicate:
  assumes fixed: "\<forall>j<nat n_sims. draws i j = c"
    and run: "year_body plan scen draws n_sims curr_age ret_age (i, year_idx)
                (replicate (nat n_sims) p, replicate (nat n_sims) s) = Inr (portfolios', skips')"
  shows "\<exists>p' s'. portfolios' = replicate (nat n_sims) p' \<and> skips' = replicate (nat n_sims) s'"
proof -
  from fixed have "market_returns_of draws i n_sims = map (\<lambda>j. c) [0..<nat n_sims]"
    by (simp add: market_returns_of_def)
  then have mr: "market_returns_of draws i n_sims = replicate (nat n_sims) c"
    by (simp add: map_replicate_const)
  from run show ?thesis
    by (auto simp: year_body_eq_Inr cash_flow_def accumulation_eq_Inr retirement_eq_Inr mr
        market_step_def should_withdraw_of_def withdraw_def used_skip_of_def decrement_def
        zip_replicate split: if_splits)
qed

lemma year_loop_replicate:
  assumes "\<forall>iy\<in>set ys. \<forall>j<nat n_sims. draws (fst iy) j = c"
    and "year_loop plan scen draws n_sims curr_age ret_age ys
           (replicate (nat n_sims) p, replicate (nat n_sims) s) = Inr (portfolios', skips')"
  shows "\<exists>p' s'. portfolios' = replicate (nat n_sims) p' \<and> skips' = replicate (nat n_sims) s'"
  using assms
proof (induction ys arbitrary: p s)
  case Nil
  then show ?case by auto
next
  case (Cons iy ys)
  obtain i year_idx where iy: "iy = (i, year_idx)" by (cases iy)
  from Cons.prems(2) obtain ps ss where
    body: "year_body plan scen draws n_sims curr_age ret_age (i, year_idx)
             (replicate (nat n_sims) p, replicate (nat n_sims) s) = Inr (ps, ss)"
    and rest: "year_loop plan scen draws n_sims curr_age ret_age ys (ps, ss)
                 = Inr (portfolios', skips')"
    unfolding iy by (auto simp: ebind_eq_Inr)
  from Cons.prems(1) have "\<forall>j<nat n_sims. draws i j = c"
    unfolding iy by simp
  from year_body_replicate [OF this body] obtain p1 s1 where
    ps: "ps = replicate (nat n_sims) p1" and ss: "ss = replicate (nat n_sims) s1" by blast
  from Cons.prems(1) have "\<forall>iy\<in>set ys. \<forall>j<nat n_sims. draws (fst iy) j = c" by simp
  from Cons.IH [OF this rest [unfolded ps ss]] show ?case .
qed

text \<open>
  Claim C9. The run is a function of the plan, the scenario, the number of trials and
  the draws, and of the draws it only reads those of the calls \<open>i < years\<close> at the
  positions \<open>j < n_sims\<close>: two runs whose random sources agree there have the same
  population after every year \<open>k \<le> years\<close>, the same final population and the same
  outputs. When the source returns one fixed value \<open>c\<close> at each of these draws, all
  trials of a year have the same balance and the same skip count.
\<close>

theorem deterministic_run:
  assumes init: "init_run n_sims plan = Inr (curr_age, ret_age, years, st0)"
    and same: "\<forall>i<nat years. \<forall>j<nat n_sims. draws' i j = draws i j"
    and k: "k \<le> years"
  shows "year_loop plan scen draws' n_sims curr_age ret_age (year_range k) st0
           = year_loop plan scen draws n_sims curr_age ret_age (year_range k) st0 \<and>
         final_population n_sims plan scen draws' = final_population n_sims plan scen draws \<and>
         run_sim n_sims plan scen draws' = run_sim n_sims plan scen draws \<and>
         ((\<forall>i<nat years. \<forall>j<nat n_sims. draws i j = c) \<longrightarrow>
            (\<forall>portfolios skips.
               year_loop plan scen draws n_sims curr_age ret_age (year_range k) st0
                 = Inr (portfolios, skips) \<longrightarrow>
               (\<exists>p s. portfolios = replicate (nat n_sims) p \<and>
                      skips = replicate (nat n_sims) s)))"
proof -
  have in_range: "fst iy < nat years" if "iy \<in> set (year_range m)" "m \<le> years" for iy m
    using fst_year_range [OF that(1)] that(2) by simp
  have loop: "year_loop plan scen draws' n_sims curr_age ret_age (year_range m) st0
      = year_loop plan scen draws n_sims curr_age ret_age (year_range m) st0" if "m \<le> years" for m
  proof (rule year_loop_cong, intro ballI allI impI)
    fix iy j
    assume "iy \<in> set (year_range m)" and "j < nat n_sims"
    with same in_range [OF _ that] show "draws' (fst iy) j = draws (fst iy) j" by simp
  qed
  have fin: "final_population n_sims plan scen draws' = final_population n_sims plan scen draws"
    by (simp add: final_population_def init loop)
  then have out: "run_sim n_sims plan scen draws' = run_sim n_sims plan scen draws"
    by (simp add: run_sim_def)
  from init obtain current es where
    st0: "st0 = (replicate (nat n_sims) current, replicate (nat n_sims) es)"
    by (auto simp: init_run_eq_Inr)
  have same_trials: "\<exists>p s. portfolios = replicate (nat n_sims) p \<and> skips = replicate (nat n_sims) s"
    if fixed: "\<forall>i<nat years. \<forall>j<nat n_sims. draws i j = c"
      and at_k: "year_loop plan scen draws n_sims curr_age ret_age (year_range k) st0
                   = Inr (portfolios, skips)"
    for portfolios skips
  proof (rule year_loop_replicate [OF _ at_k [unfolded st0]], intro ballI allI impI)
    fix iy j
    assume "iy \<in> set (year_range k)" and "j < nat n_sims"
    with fixed in_range [OF _ k] show "draws (fst iy) j = c" by simp
  qed
  from loop [OF k] fin out same_trials show ?thesis by blast
qed

theorem deterministic_run_witness:
  "init_run 2 example_plan = Inr (64, 65, 3, ([100000, 100000], [2, 2])) \<and>
   year_loop example_plan Flat (draws_upto 3 (- 0.1)) 2 64 65 (year_range 1)
       ([100000, 100000], [2, 2])
     = year_loop example_plan Flat (const_draws (- 0.1)) 2 64 65 (year_range 1)
         ([100000, 100000], [2, 2]) \<and>
   final_population 2 example_plan Flat (draws_upto 3 (- 0.1))
     = final_population 2 example_plan Flat (const_draws (- 0.1)) \<and>
   run_sim 2 example_plan Flat (draws_upto 3 (- 0.1))
     = run_sim 2 example_plan Flat (const_draws (- 0.1)) \<and>
   (\<exists>p s. [102000, 102000::real] = replicate (nat 2) p \<and> [2, 2::int] = replicate (nat 2) s)"
proof -
  have same: "\<forall>i<nat 3. \<forall>j<nat 2. draws_upto 3 (- 0.1) i j = const_draws (- 0.1) i j"
    by (simp add: draws_upto_def const_draws_def)
  have fixed: "\<forall>i<nat 3. \<forall>j<nat 2. const_draws (- 0.1) i j = - 0.1"
    by (simp add: const_draws_def)
  have k: "(1::int) \<le> 3" by simp
  note inst = deterministic_run [OF example_init_run same k, of Flat "- 0.1"]
  from inst fixed example_after_year_1
  have "\<exists>p s. [102000, 102000::real] = replicate (nat 2) p \<and> [2, 2::int] = replicate (nat 2) s"
    by blast
  moreover note inst [THEN conjunct1] inst [THEN conjunct2, THEN conjunct1]
    inst [THEN conjunct2, THEN conjunct2, THEN conjunct1]
  ultimately show ?thesis using example_init_run by (intro conjI)
qed

end
